theory Spec2Isabelle
  imports Main "HOL-Library.Sublist"
begin

section \<open>Strings as the source sees them\<close>

text \<open>
  A JavaScript string is a sequence of code units; it is modelled as a \<^typ>\<open>string\<close>, one
  \<^typ>\<open>char\<close> per code unit, so that \<open>length\<close> is \<open>.length\<close>. The model covers the
  code units 0 to 255; of the characters \<open>String.prototype.trim\<close> removes, those in that
  range are TAB, LF, VT, FF, CR, SPACE and NBSP.
\<close>

definition SP :: char where
  "SP = CHR '' ''"

definition NL :: char where
  "NL = CHR 0x0A"

definition is_ws :: "char \<Rightarrow> bool" where
  "is_ws c \<longleftrightarrow>
     c = CHR 0x09 \<or> c = CHR 0x0A \<or> c = CHR 0x0B \<or> c = CHR 0x0C \<or> c = CHR 0x0D \<or>
     c = CHR '' '' \<or> c = CHR 0xA0"

text \<open>\<open>s.trim()\<close>: white space removed at both ends.\<close>

definition trim :: "string \<Rightarrow> string" where
  "trim s = rev (dropWhile is_ws (rev (dropWhile is_ws s)))"

text \<open>
  \<open>s.split(c)\<close> for a one-character separator: every single separator splits, so two in
  a row give an empty word between them, and the empty string gives the one-element
  list \<open>['']\<close>.
\<close>

fun split_on :: "char \<Rightarrow> string \<Rightarrow> string list" where
  "split_on sep [] = [[]]"
| "split_on sep (c # cs) =
     (if c = sep then [] # split_on sep cs
      else (case split_on sep cs of
              [] \<Rightarrow> [[c]]
            | w # ws \<Rightarrow> (c # w) # ws))"

text \<open>\<open>xs.join(sep)\<close>.\<close>

fun join :: "string \<Rightarrow> string list \<Rightarrow> string" where
  "join sep [] = []"
| "join sep [w] = w"
| "join sep (w # w' # ws) = w @ sep @ join sep (w' # ws)"

text \<open>\<open>s.includes(t)\<close>: \<open>t\<close> occurs in \<open>s\<close> as a contiguous run.\<close>

fun includes_str :: "string \<Rightarrow> string \<Rightarrow> bool" where
  "includes_str [] t = (t = [])"
| "includes_str (c # cs) t = (prefix t (c # cs) \<or> includes_str cs t)"

text \<open>\<open>s.replace(c, r)\<close> with a string pattern of one character: only the first occurrence
  is replaced.\<close>

fun replace_first :: "char \<Rightarrow> string \<Rightarrow> string \<Rightarrow> string" where
  "replace_first c r [] = []"
| "replace_first c r (x # xs) = (if x = c then r @ xs else x # replace_first c r xs)"

text \<open>Decimal rendering of an integer inside a template literal.\<close>

definition digit_char :: "nat \<Rightarrow> char" where
  "digit_char d = ''0123456789'' ! d"

fun show_nat :: "nat \<Rightarrow> string" where
  "show_nat n = (if n < 10 then [digit_char n] else show_nat (n div 10) @ [digit_char (n mod 10)])"

definition show_int :: "int \<Rightarrow> string" where
  "show_int i = (if i < 0 then CHR ''-'' # show_nat (nat (- i)) else show_nat (nat i))"

text \<open>
  \<open>parseInt(s, 10)\<close>: leading white space is skipped, a sign is read, then the longest run
  of decimal digits; \<open>None\<close> is \<open>NaN\<close> (no digit). Numbers are mathematical integers here:
  the rounding of values beyond \<open>2^53\<close> is outside the model.
\<close>

definition is_digit :: "char \<Rightarrow> bool" where
  "is_digit c \<longleftrightarrow> 48 \<le> (of_char c :: nat) \<and> (of_char c :: nat) \<le> 57"

definition digits_val :: "string \<Rightarrow> nat" where
  "digits_val ds = foldl (\<lambda>acc c. 10 * acc + (of_char c - 48)) 0 ds"

definition parseInt10 :: "string \<Rightarrow> int option" where
  "parseInt10 s =
     (let s1 = dropWhile is_ws s;
          sgn_rest = (case s1 of
                        [] \<Rightarrow> (1, [])
                      | c # r \<Rightarrow> if c = CHR ''-'' then (- 1, r)
                                 else if c = CHR ''+'' then (1, r) else (1, c # r));
          ds = takeWhile is_digit (snd sgn_rest)
      in if ds = [] then None else Some (fst sgn_rest * int (digits_val ds)))"

text \<open>\<open>xs.indexOf(x)\<close>: the first index holding \<open>x\<close>, or \<open>-1\<close>.\<close>

fun indexOf_from :: "'a list \<Rightarrow> 'a \<Rightarrow> int \<Rightarrow> int" where
  "indexOf_from [] x i = - 1"
| "indexOf_from (y # ys) x i = (if y = x then i else indexOf_from ys x (i + 1))"

definition indexOf :: "'a list \<Rightarrow> 'a \<Rightarrow> int" where
  "indexOf xs x = indexOf_from xs x 0"

text \<open>\<open>xs.slice(0, e)\<close>: a negative end counts from the end of the array.\<close>

definition slice0 :: "'a list \<Rightarrow> int \<Rightarrow> 'a list" where
  "slice0 xs e = (if e < 0 then take (nat (int (length xs) + e)) xs else take (nat e) xs)"

section \<open>Word locator\<close>

text \<open>
  The \<open>for (const word of words)\<close> loop of \<open>getWordAtCursorPosition\<close>, with the running
  \<open>characterCount\<close> as an argument. \<open>None\<close> is the loop running off the end of \<open>words\<close>.
\<close>

fun getWord_loop :: "string list \<Rightarrow> nat \<Rightarrow> nat \<Rightarrow> string option" where
  "getWord_loop [] characterCount cursorPosition = None"
| "getWord_loop (word # words) characterCount cursorPosition =
     (let characterCount' = characterCount + (length word + 1) in
      if characterCount' \<ge> cursorPosition then Some word
      else getWord_loop words characterCount' cursorPosition)"

definition getWordAtCursorPosition :: "string \<Rightarrow> nat \<Rightarrow> string" where
  "getWordAtCursorPosition v cursorPosition =
     (case getWord_loop (split_on SP v) 0 cursorPosition of
        Some word \<Rightarrow> word
      | None \<Rightarrow> v)"

section \<open>Default value synthesizer\<close>

text \<open>
  \<open>FieldKind\<close>, \<open>FieldValueType\<close> and \<open>FieldDefinition\<close> are declared in
  \<open>sentry/utils/fields\<close>; the members the source names are constructors here, every
  other member of the enumerations is \<open>OtherFieldKind\<close> or \<open>OtherValueType\<close>.
\<close>

datatype FieldKind = FUNCTION | TAG | FIELD | OtherFieldKind string

datatype FieldValueType =
  INTEGER | NUMBER | DURATION | PERCENTAGE | STRING | OtherValueType string

record Parameter =
  param_name :: string
  defaultValue :: "string option"

record FieldDefinition =
  fd_kind :: FieldKind
  valueType :: "FieldValueType option"
  parameters :: "Parameter list option"
  desc :: "string option"

text \<open>
  \<open>getDefaultFilterValue\<close> (of \<open>tokens/utils\<close>) is a parameter of the functions that
  call it: \<open>gdv key fieldDefinition\<close> is the string it returns.
\<close>

type_synonym DefaultValueGetter = "string \<Rightarrow> FieldDefinition option \<Rightarrow> string"

type_synonym FieldDefinitionGetter = "string \<Rightarrow> FieldDefinition option"

definition getInitialFilterKeyText :: "string \<Rightarrow> FieldDefinition option \<Rightarrow> string" where
  "getInitialFilterKeyText key fieldDefinition =
     (case fieldDefinition of
        None \<Rightarrow> key
      | Some d \<Rightarrow>
          if fd_kind d = FUNCTION then
            (case parameters d of
               Some ps \<Rightarrow>
                 (let parametersText =
                        join '','' (map (\<lambda>param. case defaultValue param of Some v \<Rightarrow> v | None \<Rightarrow> [])
                                      (filter (\<lambda>param. defaultValue param \<noteq> None) ps))
                  in key @ ''('' @ parametersText @ '')'')
             | None \<Rightarrow> key @ ''()'')
          else key)"

definition getInitialFilterText ::
  "DefaultValueGetter \<Rightarrow> string \<Rightarrow> FieldDefinition option \<Rightarrow> string" where
  "getInitialFilterText gdv key fieldDefinition =
     (let defaultValue = gdv key fieldDefinition;
          keyText = getInitialFilterKeyText key fieldDefinition
      in case (case fieldDefinition of None \<Rightarrow> None | Some d \<Rightarrow> valueType d) of
           Some INTEGER \<Rightarrow> keyText @ '':>'' @ defaultValue
         | Some NUMBER \<Rightarrow> keyText @ '':>'' @ defaultValue
         | Some DURATION \<Rightarrow> keyText @ '':>'' @ defaultValue
         | Some PERCENTAGE \<Rightarrow> keyText @ '':>'' @ defaultValue
         | Some STRING \<Rightarrow> keyText @ '':'' @ defaultValue
         | _ \<Rightarrow> keyText @ '':'' @ defaultValue)"

section \<open>Focused-word replacer\<close>

text \<open>
  The loop of \<open>replaceFocusedWordWithFilter\<close>; \<open>filterText\<close> is
  \<open>getInitialFilterText(key, getFieldDefinition(key))\<close>. \<open>value.slice(0, n)\<close> is
  \<open>take n\<close> and \<open>value.slice(n)\<close> is \<open>drop n\<close>, both indices being non-negative.
\<close>

fun replace_loop :: "string \<Rightarrow> string \<Rightarrow> string list \<Rightarrow> nat \<Rightarrow> nat \<Rightarrow> string option" where
  "replace_loop v filterText [] characterCount cursorPosition = None"
| "replace_loop v filterText (word # words) characterCount cursorPosition =
     (let characterCount' = characterCount + (length word + 1) in
      if characterCount' \<ge> cursorPosition then
        Some (trim (trim (take (characterCount' - length word - 1) v)
                    @ '' '' @ filterText @ '' ''
                    @ trim (drop characterCount' v)))
      else replace_loop v filterText words characterCount' cursorPosition)"

definition replaceFocusedWordWithFilter ::
  "DefaultValueGetter \<Rightarrow> string \<Rightarrow> nat \<Rightarrow> string \<Rightarrow> FieldDefinitionGetter \<Rightarrow> string" where
  "replaceFocusedWordWithFilter gdv v cursorPosition key getFieldDefinition =
     (case replace_loop v (getInitialFilterText gdv key (getFieldDefinition key))
             (split_on SP v) 0 cursorPosition of
        Some r \<Rightarrow> r
      | None \<Rightarrow> v)"

section \<open>Focus router\<close>

text \<open>
  \<open>Token\<close> is the enumeration of \<open>searchSyntax/parser\<close>; the members the source names are
  constructors. The string each member stands for is a parameter, \<open>tokenText\<close>.
  Of the \<open>ListState\<close> the code reads the keys of the collection, in order, and the
  focused key (\<open>None\<close> is \<open>null\<close>).
\<close>

datatype Token = FILTER | FREE_TEXT | L_PAREN | R_PAREN | OtherToken string

record FocusOverride =
  itemKey :: string
  part :: "string option"

record ListState =
  collectionKeys :: "string list"
  focusedKey :: "string option"

definition countPreviousItemsOfType :: "(Token \<Rightarrow> string) \<Rightarrow> ListState \<Rightarrow> Token \<Rightarrow> nat" where
  "countPreviousItemsOfType tokenText state type =
     (let itemKeys = collectionKeys state;
          currentIndex = (case focusedKey state of
                            None \<Rightarrow> - 1
                          | Some k \<Rightarrow> indexOf itemKeys k)
      in fold (\<lambda>next count. if includes_str next (tokenText type) then count + 1 else count)
              (slice0 itemKeys currentIndex) 0)"

definition calculateNextFocusForFilter :: "(Token \<Rightarrow> string) \<Rightarrow> ListState \<Rightarrow> FocusOverride" where
  "calculateNextFocusForFilter tokenText state =
     (let numPreviousFilterItems = countPreviousItemsOfType tokenText state FILTER
      in \<lparr>itemKey = tokenText FILTER @ '':'' @ show_nat numPreviousFilterItems,
          part = Some ''value''\<rparr>)"

text \<open>
  \<open>item.key.toString().split(':')\<close>, of which the second element is parsed; a key with
  no colon gives \<open>undefined\<close> there, which \<open>parseInt\<close> reads as \<open>NaN\<close>.
\<close>

definition calculateNextFocusForParen :: "(Token \<Rightarrow> string) \<Rightarrow> string \<Rightarrow> FocusOverride" where
  "calculateNextFocusForParen tokenText item_key =
     (let tokenTypeIndex = (case split_on (CHR '':'') item_key of
                              _ # tokenTypeIndexStr # _ \<Rightarrow> parseInt10 tokenTypeIndexStr
                            | _ \<Rightarrow> None)
      in \<lparr>itemKey = tokenText FREE_TEXT @ '':'' @
                      (case tokenTypeIndex of None \<Rightarrow> ''NaN'' | Some i \<Rightarrow> show_int (i + 1)),
          part = None\<rparr>)"

text \<open>
  The keys of the items of the collection have the form \<open>type:index\<close>: this is how
  \<open>calculateNextFocusForFilter\<close> builds the key it targets and how
  \<open>calculateNextFocusForParen\<close> takes the key of the item apart. \<open>token_key\<close> is the
  key of the token of type \<open>t\<close> with index \<open>n\<close>.
\<close>

definition token_key :: "(Token \<Rightarrow> string) \<Rightarrow> Token \<times> nat \<Rightarrow> string" where
  "token_key tokenText item = tokenText (fst item) @ '':'' @ show_nat (snd item)"

section \<open>The free-text slot\<close>

text \<open>
  What the component reads from its surroundings: the parser (\<open>None\<close> is its \<open>null\<close>
  result), the field-definition and default-value lookups, the committed query, the
  string of each \<open>Token\<close> member and \<open>replaceTokensWithPadding\<close>. Of a parsed token the
  code reads the type and, for a filter, the text of its key.
\<close>

record ParsedToken =
  tok_type :: Token
  key_text :: "string option"

record FreeTextToken =
  tok_text :: string
  tok_value :: string

record Context =
  parseSearch :: "string \<Rightarrow> ParsedToken list option"
  getFieldDefinition :: FieldDefinitionGetter
  getDefaultFilterValue :: DefaultValueGetter
  tokenText :: "Token \<Rightarrow> string"
  query :: string
  replaceTokensWithPadding :: "string \<Rightarrow> FreeTextToken list \<Rightarrow> string \<Rightarrow> string"

record Props =
  token :: FreeTextToken
  item_key :: string
  state :: ListState

text \<open>The two pieces of local state, \<open>inputValue\<close> and \<open>selectionIndex\<close>.\<close>

record Local =
  inputValue :: string
  selectionIndex :: nat

datatype Action =
  UPDATE_FREE_TEXT "FreeTextToken list" string "FocusOverride option"
| REPLACE_TOKENS_WITH_TEXT "FreeTextToken list" string

text \<open>
  What a handler does: the actions it dispatches, the searches it submits with
  \<open>handleSearch\<close>, and the local state it leaves. Analytics events are not modelled.
\<close>

record Outcome =
  dispatched :: "Action list"
  searched :: "string list"
  local :: Local

text \<open>
  \<open>resetInputValue\<close>: the input goes back to the trimmed text of the token and the
  selection index is read from the input element; \<open>domSelectionStart\<close> is
  \<open>inputRef.current?.selectionStart\<close>, \<open>None\<close> when it is missing.
\<close>

definition resetInputValue :: "Props \<Rightarrow> nat option \<Rightarrow> Local" where
  "resetInputValue props domSelectionStart =
     \<lparr>inputValue = trim (tok_text (token props)),
      selectionIndex = (case domSelectionStart of Some n \<Rightarrow> n | None \<Rightarrow> 0)\<rparr>"

text \<open>\<open>parsedText?.some(p)\<close>: false when the parser gave no result.\<close>

definition parsed_some :: "(ParsedToken \<Rightarrow> bool) \<Rightarrow> ParsedToken list option \<Rightarrow> bool" where
  "parsed_some p parsedText = (case parsedText of None \<Rightarrow> False | Some ts \<Rightarrow> list_ex p ts)"

text \<open>
  \<open>onInputChange\<close>; \<open>e_value\<close> is \<open>e.target.value\<close> and \<open>e_selectionStart\<close> is
  \<open>e.target.selectionStart\<close>.
\<close>

definition onInputChange ::
  "Context \<Rightarrow> Props \<Rightarrow> nat option \<Rightarrow> Local \<Rightarrow> string \<Rightarrow> nat option \<Rightarrow> Outcome" where
  "onInputChange ctx props domSelectionStart l e_value e_selectionStart =
     (let filterValue = getWordAtCursorPosition (inputValue l) (selectionIndex l);
          parsedText = parseSearch ctx (e_value @ [CHR 0x22])
      in if parsed_some (\<lambda>textToken. tok_type textToken = L_PAREN \<or> tok_type textToken = R_PAREN)
              parsedText
         then \<lparr>dispatched =
                 [UPDATE_FREE_TEXT [token props] e_value
                    (Some (calculateNextFocusForParen (tokenText ctx) (item_key props)))],
               searched = [],
               local = resetInputValue props domSelectionStart\<rparr>
         else if parsed_some (\<lambda>textToken. tok_type textToken = FILTER \<and>
                                            key_text textToken = Some filterValue)
                   parsedText
         then (let filterKey = filterValue
               in \<lparr>dispatched =
                      [UPDATE_FREE_TEXT [token props]
                         (replaceFocusedWordWithFilter (getDefaultFilterValue ctx) (inputValue l)
                            (selectionIndex l) filterKey (getFieldDefinition ctx))
                         (Some (calculateNextFocusForFilter (tokenText ctx) (state props)))],
                    searched = [],
                    local = resetInputValue props domSelectionStart\<rparr>)
         else \<lparr>dispatched = [],
               searched = [],
               local = \<lparr>inputValue = e_value,
                        selectionIndex = (case e_selectionStart of Some n \<Rightarrow> n | None \<Rightarrow> 0)\<rparr>\<rparr>)"

text \<open>\<open>onOptionSelected\<close>, with the key chosen from the menu.\<close>

definition onOptionSelected ::
  "Context \<Rightarrow> Props \<Rightarrow> nat option \<Rightarrow> Local \<Rightarrow> string \<Rightarrow> Outcome" where
  "onOptionSelected ctx props domSelectionStart l v =
     \<lparr>dispatched =
        [UPDATE_FREE_TEXT [token props]
           (replaceFocusedWordWithFilter (getDefaultFilterValue ctx) (inputValue l)
              (selectionIndex l) v (getFieldDefinition ctx))
           (Some (calculateNextFocusForFilter (tokenText ctx) (state props)))],
      searched = [],
      local = resetInputValue props domSelectionStart\<rparr>"

text \<open>\<open>onPaste\<close>, with \<open>e.clipboardData.getData('text/plain')\<close>.\<close>

definition onPaste :: "Props \<Rightarrow> nat option \<Rightarrow> string \<Rightarrow> Outcome" where
  "onPaste props domSelectionStart clipboard =
     (let text = trim (replace_first NL [] clipboard)
      in \<lparr>dispatched = [REPLACE_TOKENS_WITH_TEXT [token props] text],
          searched = [],
          local = resetInputValue props domSelectionStart\<rparr>)"




section \<open>Candidate ranker\<close>

text \<open>
  A \<open>TagCollection\<close> is a plain object from keys to tags; it is the list of its own
  entries in the order \<open>Object.values\<close> enumerates them. \<open>keys[key]\<close> finds an own entry
  first, then a member of that name inherited from \<open>Object.prototype\<close>, and is
  \<open>undefined\<close> (\<open>None\<close>) otherwise. An inherited member is a function or, for
  \<open>__proto__\<close>, the prototype itself: reading \<open>.key\<close> of it gives \<open>undefined\<close>, while
  reading \<open>tag.key\<close> of \<open>undefined\<close> throws a \<open>TypeError\<close>. A template literal renders
  \<open>undefined\<close> as the text \<open>undefined\<close>.
  The \<open>details\<close> of an item, the element \<open>\<langle>KeyDescription tag={tag} /\<rangle>\<close>, is the
  value it is built from. \<open>getEscapedKey\<close> (of \<open>compactSelect/utils\<close>) is a parameter; it
  is applied to \<open>tag.key\<close>, which may be \<open>undefined\<close>.
\<close>

datatype error = TypeError

record Tag =
  tag_key :: string
  tag_kind :: "FieldKind option"

datatype TagValue = OwnTag Tag | PrototypeMember string

definition object_prototype_names :: "string list" where
  "object_prototype_names =
     [''constructor'', ''__defineGetter__'', ''__defineSetter__'', ''hasOwnProperty'',
      ''__lookupGetter__'', ''__lookupSetter__'', ''isPrototypeOf'', ''propertyIsEnumerable'',
      ''toString'', ''valueOf'', ''__proto__'', ''toLocaleString'']"

type_synonym TagCollection = "(string \<times> Tag) list"

definition lookup_key :: "TagCollection \<Rightarrow> string \<Rightarrow> TagValue option" where
  "lookup_key keys key =
     (case map_of keys key of
        Some tag \<Rightarrow> Some (OwnTag tag)
      | None \<Rightarrow> if key \<in> set object_prototype_names then Some (PrototypeMember key) else None)"

text \<open>\<open>tag.key\<close>, \<open>None\<close> being \<open>undefined\<close>, and its rendering in a template literal.\<close>

fun key_of :: "TagValue \<Rightarrow> string option" where
  "key_of (OwnTag tag) = Some (tag_key tag)"
| "key_of (PrototypeMember n) = None"

definition render :: "string option \<Rightarrow> string" where
  "render s = (case s of Some t \<Rightarrow> t | None \<Rightarrow> ''undefined'')"

record KeyItem =
  ki_key :: string
  ki_label :: "string option"
  ki_description :: string
  ki_value :: "string option"
  ki_textValue :: "string option"
  ki_hideCheck :: bool
  ki_showDetailsInOverlay :: bool
  ki_details :: TagValue

record KeySectionItem =
  ks_key :: string
  ks_value :: string
  ks_title :: string
  ks_options :: "KeyItem list"

datatype Candidate = Key KeyItem | Section KeySectionItem

record FilterKeySection =
  sec_value :: string
  sec_label :: string
  sec_children :: "string list"

text \<open>\<open>getKeyLabel\<close> with \<open>includeAggregateArgs\<close> given explicitly.\<close>

definition getKeyLabel :: "TagValue \<Rightarrow> FieldDefinition option \<Rightarrow> bool \<Rightarrow> string option" where
  "getKeyLabel tag fieldDefinition includeAggregateArgs =
     (case fieldDefinition of
        None \<Rightarrow> key_of tag
      | Some d \<Rightarrow>
          if fd_kind d = FUNCTION then
            (case parameters d of
               None \<Rightarrow> Some (render (key_of tag) @ ''()'')
             | Some ps \<Rightarrow>
                 if ps \<noteq> [] then
                   (if includeAggregateArgs
                    then Some (render (key_of tag) @ ''('' @ join '', '' (map param_name ps) @ '')'')
                    else Some (render (key_of tag) @ ''(...)''))
                 else Some (render (key_of tag) @ ''()''))
          else key_of tag)"

definition createItem ::
  "(string option \<Rightarrow> string) \<Rightarrow> TagValue \<Rightarrow> FieldDefinition option \<Rightarrow> KeyItem" where
  "createItem getEscapedKey tag fieldDefinition =
     (let description = (case fieldDefinition of None \<Rightarrow> None | Some d \<Rightarrow> desc d)
      in \<lparr>ki_key = getEscapedKey (key_of tag),
          ki_label = getKeyLabel tag fieldDefinition False,
          ki_description = (case description of Some t \<Rightarrow> t | None \<Rightarrow> []),
          ki_value = key_of tag,
          ki_textValue = key_of tag,
          ki_hideCheck = True,
          ki_showDetailsInOverlay = True,
          ki_details = tag\<rparr>)"

text \<open>\<open>section.children.map(key => createItem(keys[key], getFieldDefinition(key)))\<close>.\<close>

fun createItems ::
  "(string option \<Rightarrow> string) \<Rightarrow> TagCollection \<Rightarrow> FieldDefinitionGetter \<Rightarrow> string list
     \<Rightarrow> error + KeyItem list" where
  "createItems getEscapedKey keys gfd [] = Inr []"
| "createItems getEscapedKey keys gfd (key # rest) =
     (case lookup_key keys key of
        None \<Rightarrow> Inl TypeError
      | Some tag \<Rightarrow>
          (case createItems getEscapedKey keys gfd rest of
             Inl e \<Rightarrow> Inl e
           | Inr items \<Rightarrow> Inr (createItem getEscapedKey tag (gfd key) # items)))"

definition createSection ::
  "(string option \<Rightarrow> string) \<Rightarrow> FilterKeySection \<Rightarrow> TagCollection \<Rightarrow> FieldDefinitionGetter
     \<Rightarrow> error + KeySectionItem" where
  "createSection getEscapedKey section keys gfd =
     (case createItems getEscapedKey keys gfd (sec_children section) of
        Inl e \<Rightarrow> Inl e
      | Inr items \<Rightarrow>
          Inr \<lparr>ks_key = sec_value section,
               ks_value = sec_value section,
               ks_title = sec_label section,
               ks_options = items\<rparr>)"

text \<open>\<open>filterKeySections.map(section => createSection(...))\<close>.\<close>

fun createSections ::
  "(string option \<Rightarrow> string) \<Rightarrow> TagCollection \<Rightarrow> FieldDefinitionGetter \<Rightarrow> FilterKeySection list
     \<Rightarrow> error + Candidate list" where
  "createSections getEscapedKey keys gfd [] = Inr []"
| "createSections getEscapedKey keys gfd (section # rest) =
     (case createSection getEscapedKey section keys gfd of
        Inl e \<Rightarrow> Inl e
      | Inr s \<Rightarrow>
          (case createSections getEscapedKey keys gfd rest of
             Inl e \<Rightarrow> Inl e
           | Inr ss \<Rightarrow> Inr (Section s # ss)))"

text \<open>
  \<open>useSortItems\<close>. \<open>search\<close> is what \<open>useFuzzySearch\<close> returned for the flat items:
  \<open>None\<close> while the engine is not loaded, else the function from a filter word to the
  matched items, best first.
\<close>

definition flatItems ::
  "(string option \<Rightarrow> string) \<Rightarrow> TagCollection \<Rightarrow> FieldDefinitionGetter \<Rightarrow> KeyItem list" where
  "flatItems getEscapedKey filterKeys gfd =
     map (\<lambda>filterKey. createItem getEscapedKey (OwnTag filterKey) (gfd (tag_key filterKey)))
         (map snd filterKeys)"

definition useSortItems ::
  "(string option \<Rightarrow> string) \<Rightarrow> TagCollection \<Rightarrow> FilterKeySection list \<Rightarrow> FieldDefinitionGetter
     \<Rightarrow> (string \<Rightarrow> KeyItem list) option \<Rightarrow> string \<Rightarrow> error + Candidate list" where
  "useSortItems getEscapedKey filterKeys filterKeySections gfd search filterValue =
     (case (if filterValue = [] then None else search) of
        None \<Rightarrow>
          if filterKeySections = [] then Inr (map Key (flatItems getEscapedKey filterKeys gfd))
          else createSections getEscapedKey filterKeys gfd filterKeySections
      | Some engine \<Rightarrow> Inr (map Key (engine filterValue)))"

section \<open>Properties of the word scan\<close>

text \<open>
  The words of a text, each followed by one separator, concatenate back to the text
  followed by one separator; this is what ties the running \<open>characterCount\<close> of the two
  loops to positions in the text.
\<close>

lemma split_on_nonempty: "split_on c v \<noteq> []"
  by (induction v) (auto split: list.splits)

lemma split_on_concat: "concat (map (\<lambda>w. w @ [c]) (split_on c v)) = v @ [c]"
  by (induction v) (auto split: list.splits)

lemma split_on_sum: "sum_list (map (\<lambda>w. length w + 1) (split_on c v)) = length v + 1"
  by (induction v) (auto split: list.splits)

lemma split_on_no_sep: "w \<in> set (split_on c v) \<Longrightarrow> c \<notin> set w"
  by (induction v arbitrary: w) (auto split: list.splits if_splits)

lemma getWord_loop_None:
  "getWord_loop ws cc cur = None \<longleftrightarrow> ws = [] \<or> cc + sum_list (map (\<lambda>w. length w + 1) ws) < cur"
proof (induction ws arbitrary: cc)
  case Nil
  show ?case by simp
next
  case (Cons x ws)
  show ?case
  proof (cases "cur \<le> cc + (length x + 1)")
    case True
    then show ?thesis by simp
  next
    case False
    then show ?thesis
      using Cons.IH[of "cc + (length x + 1)"]
      by (cases "ws = []") (simp_all add: add.assoc)
  qed
qed

lemma replace_loop_None:
  "replace_loop v ft ws cc cur = None \<longleftrightarrow> getWord_loop ws cc cur = None"
proof (induction ws arbitrary: cc)
  case Nil
  show ?case by simp
next
  case (Cons x ws)
  show ?case
    using Cons.IH[of "cc + (length x + 1)"]
    by (cases "cur \<le> cc + (length x + 1)") simp_all
qed

lemma loop_Some:
  "getWord_loop ws cc cur = Some w \<Longrightarrow>
   \<exists>bs as. ws = bs @ w # as
     \<and> (bs = [] \<or> cc + sum_list (map (\<lambda>w. length w + 1) bs) < cur)
     \<and> cur \<le> cc + sum_list (map (\<lambda>w. length w + 1) bs) + length w + 1
     \<and> replace_loop v ft ws cc cur =
         Some (trim (trim (take (cc + sum_list (map (\<lambda>w. length w + 1) bs)) v)
                     @ '' '' @ ft @ '' ''
                     @ trim (drop (cc + sum_list (map (\<lambda>w. length w + 1) bs) + length w + 1) v)))"
proof (induction ws arbitrary: cc)
  case Nil
  then show ?case by simp
next
  case (Cons x ws)
  show ?case
  proof (cases "cur \<le> cc + (length x + 1)")
    case True
    with Cons.prems have "w = x" by (simp add: Let_def)
    with True show ?thesis
      by (intro exI[of _ "[]"] exI[of _ ws]) (simp add: Let_def)
  next
    case False
    with Cons.prems have "getWord_loop ws (cc + (length x + 1)) cur = Some w"
      by (simp add: Let_def)
    from Cons.IH[OF this] obtain bs as where
      h: "ws = bs @ w # as"
         "bs = [] \<or> cc + (length x + 1) + sum_list (map (\<lambda>w. length w + 1) bs) < cur"
         "cur \<le> cc + (length x + 1) + sum_list (map (\<lambda>w. length w + 1) bs) + length w + 1"
         "replace_loop v ft ws (cc + (length x + 1)) cur =
         Some (trim (trim (take (cc + (length x + 1) + sum_list (map (\<lambda>w. length w + 1) bs)) v)
                     @ '' '' @ ft @ '' ''
                     @ trim (drop (cc + (length x + 1) + sum_list (map (\<lambda>w. length w + 1) bs) + length w + 1) v)))"
      by blast
    have a1: "x # ws = (x # bs) @ w # as" using h(1) by simp
    have a2: "x # bs = [] \<or> cc + sum_list (map (\<lambda>w. length w + 1) (x # bs)) < cur"
      using h(2) False by auto
    have a3: "cur \<le> cc + sum_list (map (\<lambda>w. length w + 1) (x # bs)) + length w + 1"
      using h(3) by simp
    have e: "cc + (length x + 1) + sum_list (map (\<lambda>w. length w + 1) bs)
             = cc + sum_list (map (\<lambda>w. length w + 1) (x # bs))" by simp
    have "replace_loop v ft (x # ws) cc cur = replace_loop v ft ws (cc + (length x + 1)) cur"
      using False by (simp add: Let_def)
    then have a4: "replace_loop v ft (x # ws) cc cur =
         Some (trim (trim (take (cc + sum_list (map (\<lambda>w. length w + 1) (x # bs))) v)
                     @ '' '' @ ft @ '' ''
                     @ trim (drop (cc + sum_list (map (\<lambda>w. length w + 1) (x # bs)) + length w + 1) v)))"
      unfolding h(4) e .
    show ?thesis
    proof (intro exI conjI)
      show "x # ws = (x # bs) @ w # as" by (rule a1)
      show "x # bs = [] \<or> cc + sum_list (map (\<lambda>w. length w + 1) (x # bs)) < cur" by (rule a2)
      show "cur \<le> cc + sum_list (map (\<lambda>w. length w + 1) (x # bs)) + length w + 1" by (rule a3)
      show "replace_loop v ft (x # ws) cc cur =
         Some (trim (trim (take (cc + sum_list (map (\<lambda>w. length w + 1) (x # bs))) v)
                     @ '' '' @ ft @ '' ''
                     @ trim (drop (cc + sum_list (map (\<lambda>w. length w + 1) (x # bs)) + length w + 1) v)))"
        by (rule a4)
    qed
  qed
qed


lemma length_concat_sep: "length (concat (map (\<lambda>w. w @ [c]) bs)) = sum_list (map (\<lambda>w. length w + 1) bs)"
  by (induction bs) simp_all

lemma concat_sep_last: "bs \<noteq> [] \<Longrightarrow> last (concat (map (\<lambda>w. w @ [c]) bs)) = c"
  by (induction bs) (simp_all add: last_append)

lemma concat_sep_snoc: "bs \<noteq> [] \<Longrightarrow> \<exists>A. concat (map (\<lambda>w. w @ [c]) bs) = A @ [c]"
proof -
  assume "bs \<noteq> []"
  then obtain rs r where "bs = rs @ [r]" by (metis rev_exhaust)
  then have "concat (map (\<lambda>w. w @ [c]) bs) = (concat (map (\<lambda>w. w @ [c]) rs) @ r) @ [c]" by simp
  then show ?thesis by blast
qed

lemma wsum_take_le: "sum_list (map (\<lambda>w. length w + 1) (take k bs)) \<le> sum_list (map (\<lambda>w. length (w::'a list) + 1) bs)"
proof -
  have "sum_list (map (\<lambda>w. length w + 1) bs)
        = sum_list (map (\<lambda>w. length w + 1) (take k bs)) + sum_list (map (\<lambda>w. length w + 1) (drop k bs))"
    by (metis append_take_drop_id map_append sum_list_append)
  then show ?thesis by simp
qed

lemma split_on_decomp:
  assumes "split_on c v = bs @ w # as"
  shows "\<exists>S. v = concat (map (\<lambda>w. w @ [c]) bs) @ w @ S \<and> (S = [] \<or> hd S = c)"
proof -
  have "concat (map (\<lambda>w. w @ [c]) (bs @ w # as)) = v @ [c]"
    using split_on_concat[of c v] unfolding assms .
  then have e: "v @ [c] = (concat (map (\<lambda>w. w @ [c]) bs) @ w @ [c]) @ concat (map (\<lambda>w. w @ [c]) as)"
    by simp
  show ?thesis
  proof (cases "as = []")
    case True
    have "v @ [c] = (concat (map (\<lambda>w. w @ [c]) bs) @ w) @ [c]"
      unfolding e True by simp
    then have "v = concat (map (\<lambda>w. w @ [c]) bs) @ w" by (rule append_same_eq[THEN iffD1])
    then show ?thesis by (intro exI[of _ "[]"]) simp
  next
    case False
    from concat_sep_snoc[OF False, of c]
    obtain A where A: "concat (map (\<lambda>w. w @ [c]) as) = A @ [c]" ..
    have "v @ [c] = (concat (map (\<lambda>w. w @ [c]) bs) @ w @ (c # A)) @ [c]"
      unfolding e A by simp
    then have "v = concat (map (\<lambda>w. w @ [c]) bs) @ w @ (c # A)" by (rule append_same_eq[THEN iffD1])
    then show ?thesis by (intro exI[of _ "c # A"]) simp
  qed
qed

lemma trim_ws_Cons: "is_ws c \<Longrightarrow> trim (c # xs) = trim xs"
  by (simp add: trim_def)

lemma is_ws_SP: "is_ws SP"
  by (simp add: is_ws_def SP_def)


lemma located_word:
  assumes "getWord_loop (split_on SP v) 0 cur = Some w"
  shows "\<exists>p. v = take p v @ w @ drop (p + length w) v
          \<and> (p = 0 \<or> p < cur) \<and> cur \<le> p + length w + 1
          \<and> (p = 0 \<or> v ! (p - 1) = SP)
          \<and> (p + length w = length v \<or> v ! (p + length w) = SP)
          \<and> replace_loop v ft (split_on SP v) 0 cur =
              Some (trim (trim (take p v) @ '' '' @ ft @ '' '' @ trim (drop (p + length w) v)))"
proof -
  from loop_Some[OF assms, of v ft] obtain bs as where
    ws: "split_on SP v = bs @ w # as"
    and lo: "bs = [] \<or> 0 + sum_list (map (\<lambda>w. length w + 1) bs) < cur"
    and hi: "cur \<le> 0 + sum_list (map (\<lambda>w. length w + 1) bs) + length w + 1"
    and rl: "replace_loop v ft (split_on SP v) 0 cur =
         Some (trim (trim (take (0 + sum_list (map (\<lambda>w. length w + 1) bs)) v)
                     @ '' '' @ ft @ '' ''
                     @ trim (drop (0 + sum_list (map (\<lambda>w. length w + 1) bs) + length w + 1) v)))"
    by blast
  define P where "P = concat (map (\<lambda>w. w @ [SP]) bs)"
  define p where "p = length P"
  have p_sum: "sum_list (map (\<lambda>w. length w + 1) bs) = p"
    unfolding p_def P_def by (rule length_concat_sep[symmetric])
  from split_on_decomp[OF ws] obtain S where
    v: "v = P @ w @ S" and S: "S = [] \<or> hd S = SP"
    unfolding P_def by blast
  have tk: "take p v = P" unfolding p_def by (subst v) simp
  have dr: "drop (p + length w) v = S" unfolding p_def by (subst v) simp
  have dr1: "drop (p + length w + 1) v = drop 1 S" unfolding p_def by (subst v) simp
  have c1: "v = take p v @ w @ drop (p + length w) v" unfolding tk dr by (rule v)
  have c2: "p = 0 \<or> p < cur"
  proof (cases "bs = []")
    case True
    then show ?thesis by (simp add: p_def P_def)
  next
    case False
    with lo p_sum show ?thesis by simp
  qed
  have c3: "cur \<le> p + length w + 1" using hi p_sum by simp
  have c4: "p = 0 \<or> v ! (p - 1) = SP"
  proof (cases "bs = []")
    case True
    then show ?thesis by (simp add: p_def P_def)
  next
    case False
    then have l: "last P = SP" unfolding P_def by (rule concat_sep_last)
    show ?thesis
    proof (cases "P = []")
      case True
      then show ?thesis by (simp add: p_def)
    next
      case False
      then have "v ! (p - 1) = P ! (length P - 1)"
        unfolding p_def by (subst v) (simp add: nth_append)
      also have "\<dots> = last P" using False by (simp add: last_conv_nth)
      finally show ?thesis using l by simp
    qed
  qed
  have c5: "p + length w = length v \<or> v ! (p + length w) = SP"
  proof (cases "S = []")
    case True
    have "length v = length P + length w + length S" by (subst v) simp
    with True show ?thesis by (simp add: p_def)
  next
    case False
    have "v ! (p + length w) = S ! 0"
      unfolding p_def using False by (subst v) (simp add: nth_append)
    also have "\<dots> = hd S" using False by (simp add: hd_conv_nth)
    finally show ?thesis using S False by simp
  qed
  have t: "trim (drop 1 S) = trim S"
  proof (cases S)
    case Nil
    then show ?thesis by simp
  next
    case (Cons a S')
    with S have "a = SP" by simp
    with Cons show ?thesis by (simp add: trim_ws_Cons is_ws_SP)
  qed
  have c6: "replace_loop v ft (split_on SP v) 0 cur =
              Some (trim (trim (take p v) @ '' '' @ ft @ '' '' @ trim (drop (p + length w) v)))"
    using rl unfolding p_sum add_0 dr1 t tk dr .
  from c1 c2 c3 c4 c5 c6 show ?thesis by blast
qed

lemma located_index:
  assumes "getWord_loop ws 0 cur = Some w"
  shows "\<exists>i<length ws. w = ws ! i
           \<and> cur \<le> sum_list (map (\<lambda>w. length w + 1) (take (Suc i) ws))
           \<and> (\<forall>j<i. sum_list (map (\<lambda>w. length w + 1) (take (Suc j) ws)) < cur)"
proof -
  from loop_Some[OF assms, of "[]" "[]"] obtain bs as where
    ws: "ws = bs @ w # as"
    and lo: "bs = [] \<or> 0 + sum_list (map (\<lambda>w. length w + 1) bs) < cur"
    and hi: "cur \<le> 0 + sum_list (map (\<lambda>w. length w + 1) bs) + length w + 1"
    by blast
  have i: "length bs < length ws" by (simp add: ws)
  have w: "w = ws ! length bs" by (simp add: ws)
  have b: "cur \<le> sum_list (map (\<lambda>w. length w + 1) (take (Suc (length bs)) ws))"
    using hi by (simp add: ws)
  have f: "\<forall>j<length bs. sum_list (map (\<lambda>w. length w + 1) (take (Suc j) ws)) < cur"
  proof (intro allI impI)
    fix j assume j: "j < length bs"
    then have "bs \<noteq> []" by auto
    with lo have lt: "sum_list (map (\<lambda>w. length w + 1) bs) < cur" by simp
    have "take (Suc j) ws = take (Suc j) bs" using j by (simp add: ws)
    then have "sum_list (map (\<lambda>w. length w + 1) (take (Suc j) ws))
               \<le> sum_list (map (\<lambda>w. length w + 1) bs)"
      by (simp only: wsum_take_le)
    with lt show "sum_list (map (\<lambda>w. length w + 1) (take (Suc j) ws)) < cur" by simp
  qed
  from i w b f show ?thesis by blast
qed

lemma word_scan_None:
  "getWord_loop (split_on SP v) 0 cur = None \<longleftrightarrow> length v + 2 \<le> cur"
  unfolding getWord_loop_None split_on_sum using split_on_nonempty[of SP v] by auto

section \<open>Claims about the word locator and the focused-word replacer\<close>

text \<open>
  Claim C10. For every text and every cursor position up to \<open>length + 1\<close> the scan
  loop shared by \<open>getWordAtCursorPosition\<close> and \<open>replaceFocusedWordWithFilter\<close> matches
  a word, because the boundaries (word length plus one, per word of the split on single
  spaces) sum to \<open>length + 1\<close>. The loops run off the end of the words, which is
  where the two fallbacks are taken, exactly when the cursor position is at least
  \<open>length + 2\<close>.
\<close>

theorem word_scan_matches_in_range:
  "sum_list (map (\<lambda>w. length w + 1) (split_on SP v)) = length v + 1
   \<and> (getWord_loop (split_on SP v) 0 cur = None \<longleftrightarrow> length v + 2 \<le> cur)
   \<and> (replace_loop v ft (split_on SP v) 0 cur = None \<longleftrightarrow> length v + 2 \<le> cur)
   \<and> (cur \<le> length v + 1 \<longrightarrow>
        (\<exists>w. getWord_loop (split_on SP v) 0 cur = Some w)
        \<and> (\<exists>r. replace_loop v ft (split_on SP v) 0 cur = Some r))"
proof -
  have s: "sum_list (map (\<lambda>w. length w + 1) (split_on SP v)) = length v + 1"
    by (rule split_on_sum)
  have g: "getWord_loop (split_on SP v) 0 cur = None \<longleftrightarrow> length v + 2 \<le> cur"
    unfolding getWord_loop_None s using split_on_nonempty[of SP v] by auto
  have r: "replace_loop v ft (split_on SP v) 0 cur = None \<longleftrightarrow> length v + 2 \<le> cur"
    unfolding replace_loop_None by (rule g)
  have t: "cur \<le> length v + 1 \<longrightarrow>
        (\<exists>w. getWord_loop (split_on SP v) 0 cur = Some w)
        \<and> (\<exists>r. replace_loop v ft (split_on SP v) 0 cur = Some r)"
  proof
    assume "cur \<le> length v + 1"
    then have n: "\<not> length v + 2 \<le> cur" by simp
    from n g have "getWord_loop (split_on SP v) 0 cur \<noteq> None" by simp
    moreover from n r have "replace_loop v ft (split_on SP v) 0 cur \<noteq> None" by simp
    ultimately show "(\<exists>w. getWord_loop (split_on SP v) 0 cur = Some w)
        \<and> (\<exists>r. replace_loop v ft (split_on SP v) 0 cur = Some r)" by simp
  qed
  from s g r t show ?thesis by simp
qed

theorem word_scan_matches_in_range_witness:
  "(3::nat) \<le> length ''ab'' + 1
   \<and> (\<exists>w. getWord_loop (split_on SP ''ab'') 0 3 = Some w)
   \<and> (\<exists>r. replace_loop ''ab'' ''k:'' (split_on SP ''ab'') 0 3 = Some r)
   \<and> getWord_loop (split_on SP ''ab'') 0 4 = None"
  using word_scan_matches_in_range[of "''ab''" 3 "''k:''"]
        word_scan_matches_in_range[of "''ab''" 4 "''k:''"]
  by simp

text \<open>
  Claim C5. \<open>getWordAtCursorPosition\<close> splits the text on single spaces and adds
  \<open>length + 1\<close> per word. When some cumulative boundary reaches the cursor position, the
  result is the first word whose boundary does; it occurs in the text as a contiguous
  run and holds no space. When the cursor position exceeds every boundary the result
  is the whole text. Every cursor position from \<open>0\<close> to the length of the text is
  reached by a boundary. The empty text gives the empty string at every cursor
  position; the function is total, so no position raises an error.
\<close>

theorem getWordAtCursorPosition_locates:
  "(let ws = split_on SP v;
        b = (\<lambda>i. sum_list (map (\<lambda>w. length w + 1) (take (Suc i) ws)));
        r = getWordAtCursorPosition v cur
    in (if \<exists>i<length ws. cur \<le> b i
        then (\<exists>i<length ws. r = ws ! i \<and> cur \<le> b i \<and> (\<forall>j<i. b j < cur))
             \<and> sublist r v \<and> SP \<notin> set r
        else r = v)
       \<and> (cur \<le> length v \<longrightarrow> (\<exists>i<length ws. cur \<le> b i)))
   \<and> getWordAtCursorPosition [] cur = []"
proof -
  define ws where "ws = split_on SP v"
  define b where "b = (\<lambda>i. sum_list (map (\<lambda>w. length w + 1) (take (Suc i) ws)))"
  define r where "r = getWordAtCursorPosition v cur"
  have tot: "sum_list (map (\<lambda>w. length w + 1) ws) = length v + 1"
    unfolding ws_def by (rule split_on_sum)
  have ble: "b i \<le> length v + 1" for i
    unfolding b_def tot[symmetric] by (rule wsum_take_le)
  have main: "if \<exists>i<length ws. cur \<le> b i
        then (\<exists>i<length ws. r = ws ! i \<and> cur \<le> b i \<and> (\<forall>j<i. b j < cur))
             \<and> sublist r v \<and> SP \<notin> set r
        else r = v"
  proof (cases "getWord_loop ws 0 cur")
    case None
    then have "length v + 2 \<le> cur"
      using word_scan_None[of v cur] unfolding ws_def by simp
    with ble have "\<not> (\<exists>i<length ws. cur \<le> b i)"
      by (metis add_2_eq_Suc' le_trans not_less_eq_eq Suc_eq_plus1)
    moreover from None have "r = v"
      unfolding r_def getWordAtCursorPosition_def ws_def by simp
    ultimately show ?thesis by (simp only: if_False)
  next
    case (Some w)
    then have rw: "r = w" unfolding r_def getWordAtCursorPosition_def ws_def by simp
    from located_index[OF Some]
    have ex: "\<exists>i<length ws. r = ws ! i \<and> cur \<le> b i \<and> (\<forall>j<i. b j < cur)"
      unfolding rw b_def .
    then have ex': "\<exists>i<length ws. cur \<le> b i" by blast
    from ex have mem: "r \<in> set ws" by (metis nth_mem)
    then have ns: "SP \<notin> set r" unfolding ws_def by (rule split_on_no_sep)
    from mem obtain bs as where "split_on SP v = bs @ r # as"
      unfolding ws_def by (metis split_list)
    from split_on_decomp[OF this] have sl: "sublist r v"
      by (metis sublist_appendI)
    from ex ex' ns sl show ?thesis by (simp only: if_True simp_thms)
  qed
  have inr: "cur \<le> length v \<longrightarrow> (\<exists>i<length ws. cur \<le> b i)"
  proof
    assume c: "cur \<le> length v"
    have ne: "ws \<noteq> []" unfolding ws_def by (rule split_on_nonempty)
    have "b (length ws - 1) = length v + 1"
      unfolding b_def using ne tot by simp
    with c ne show "\<exists>i<length ws. cur \<le> b i"
      by (intro exI[of _ "length ws - 1"]) simp
  qed
  have emp: "getWordAtCursorPosition [] cur = []"
    by (simp add: getWordAtCursorPosition_def split: option.splits)
  from main inr emp show ?thesis
    unfolding Let_def ws_def b_def r_def by (intro conjI) assumption+
qed

theorem getWordAtCursorPosition_locates_witness:
  "(9::nat) \<le> length ''before brow after''
   \<and> getWordAtCursorPosition ''before brow after'' 9 = ''brow''
   \<and> sublist (getWordAtCursorPosition ''before brow after'' 9) ''before brow after''
   \<and> SP \<notin> set (getWordAtCursorPosition ''before brow after'' 9)"
proof -
  have e: "getWordAtCursorPosition ''before brow after'' 9 = ''brow''"
    by (simp add: getWordAtCursorPosition_def SP_def)
  have h: "(9::nat) \<le> length ''before brow after''" by simp
  from getWordAtCursorPosition_locates[of "''before brow after''" 9] h
  have "sublist (getWordAtCursorPosition ''before brow after'' 9) ''before brow after''
        \<and> SP \<notin> set (getWordAtCursorPosition ''before brow after'' 9)"
    unfolding Let_def by (simp only: if_True simp_thms)
  with e h show ?thesis by simp
qed

lemma canonical_replace:
  assumes "gfd ''browser.name'' = Some d" "fd_kind d \<noteq> FUNCTION" "valueType d = Some STRING"
    "gdv ''browser.name'' (Some d) = []"
  shows "replaceFocusedWordWithFilter gdv ''before brow after'' 9 ''browser.name'' gfd
         = ''before browser.name: after''"
  using assms
  by (simp add: replaceFocusedWordWithFilter_def getInitialFilterText_def
        getInitialFilterKeyText_def SP_def trim_def is_ws_def)

text \<open>
  Claim C3. For a cursor position up to \<open>length + 1\<close> the result of
  \<open>replaceFocusedWordWithFilter\<close> is: the text before the located word, trimmed; one
  space; the synthesized filter text of the key; one space; the text after the located
  word, trimmed; the whole trimmed. The located word is the one
  \<open>getWordAtCursorPosition\<close> returns; it starts at \<open>p\<close>, at the start of the text or
  right after a space, ends at the end of the text or right before a space, and \<open>p\<close>
  is before the cursor position, which is at most one past the end of the word. For a
  cursor position beyond \<open>length + 1\<close> the text is returned unchanged. With a
  definition of string type that is not a function and an empty default value,
  \<open>'before brow after'\<close> at \<open>9\<close> with \<open>'browser.name'\<close> gives
  \<open>'before browser.name: after'\<close>.
\<close>

theorem replaceFocusedWordWithFilter_splices:
  "(let ft = getInitialFilterText gdv key (gfd key);
        w = getWordAtCursorPosition v cur;
        r = replaceFocusedWordWithFilter gdv v cur key gfd
    in if cur \<le> length v + 1
       then \<exists>p. v = take p v @ w @ drop (p + length w) v
              \<and> (p = 0 \<or> p < cur) \<and> cur \<le> p + length w + 1
              \<and> (p = 0 \<or> v ! (p - 1) = SP)
              \<and> (p + length w = length v \<or> v ! (p + length w) = SP)
              \<and> r = trim (trim (take p v) @ '' '' @ ft @ '' '' @ trim (drop (p + length w) v))
       else r = v)
   \<and> (\<forall>d. gfd ''browser.name'' = Some d \<and> fd_kind d \<noteq> FUNCTION \<and> valueType d = Some STRING
            \<and> gdv ''browser.name'' (Some d) = []
        \<longrightarrow> replaceFocusedWordWithFilter gdv ''before brow after'' 9 ''browser.name'' gfd
            = ''before browser.name: after'')"
proof -
  define ft where "ft = getInitialFilterText gdv key (gfd key)"
  have main: "if cur \<le> length v + 1
       then \<exists>p. v = take p v @ getWordAtCursorPosition v cur @ drop (p + length (getWordAtCursorPosition v cur)) v
              \<and> (p = 0 \<or> p < cur) \<and> cur \<le> p + length (getWordAtCursorPosition v cur) + 1
              \<and> (p = 0 \<or> v ! (p - 1) = SP)
              \<and> (p + length (getWordAtCursorPosition v cur) = length v \<or> v ! (p + length (getWordAtCursorPosition v cur)) = SP)
              \<and> replaceFocusedWordWithFilter gdv v cur key gfd
                  = trim (trim (take p v) @ '' '' @ ft @ '' ''
                          @ trim (drop (p + length (getWordAtCursorPosition v cur)) v))
       else replaceFocusedWordWithFilter gdv v cur key gfd = v"
  proof (cases "getWord_loop (split_on SP v) 0 cur")
    case None
    then have c: "\<not> cur \<le> length v + 1" unfolding word_scan_None by simp
    from None have "replace_loop v ft (split_on SP v) 0 cur = None"
      by (simp only: replace_loop_None)
    then have "replaceFocusedWordWithFilter gdv v cur key gfd = v"
      unfolding replaceFocusedWordWithFilter_def ft_def by simp
    with c show ?thesis by (simp only: if_False)
  next
    case (Some w)
    then have c: "cur \<le> length v + 1"
      using word_scan_None[of v cur] by simp
    have gw: "getWordAtCursorPosition v cur = w"
      unfolding getWordAtCursorPosition_def Some by simp
    from located_word[OF Some, of ft] obtain p where
      p: "v = take p v @ w @ drop (p + length w) v"
         "p = 0 \<or> p < cur" "cur \<le> p + length w + 1"
         "p = 0 \<or> v ! (p - 1) = SP"
         "p + length w = length v \<or> v ! (p + length w) = SP"
      and rl: "replace_loop v ft (split_on SP v) 0 cur =
              Some (trim (trim (take p v) @ '' '' @ ft @ '' '' @ trim (drop (p + length w) v)))"
      by blast
    have r: "replaceFocusedWordWithFilter gdv v cur key gfd
             = trim (trim (take p v) @ '' '' @ ft @ '' '' @ trim (drop (p + length w) v))"
      unfolding replaceFocusedWordWithFilter_def ft_def[symmetric] rl by simp
    from p r have "\<exists>p. v = take p v @ w @ drop (p + length w) v
              \<and> (p = 0 \<or> p < cur) \<and> cur \<le> p + length w + 1
              \<and> (p = 0 \<or> v ! (p - 1) = SP)
              \<and> (p + length w = length v \<or> v ! (p + length w) = SP)
              \<and> replaceFocusedWordWithFilter gdv v cur key gfd
                  = trim (trim (take p v) @ '' '' @ ft @ '' '' @ trim (drop (p + length w) v))"
      by blast
    with c show ?thesis unfolding gw by (simp only: if_True)
  qed
  have canon: "\<forall>d. gfd ''browser.name'' = Some d \<and> fd_kind d \<noteq> FUNCTION \<and> valueType d = Some STRING
            \<and> gdv ''browser.name'' (Some d) = []
        \<longrightarrow> replaceFocusedWordWithFilter gdv ''before brow after'' 9 ''browser.name'' gfd
            = ''before browser.name: after''"
    using canonical_replace by blast
  from main canon show ?thesis
    unfolding Let_def ft_def by (intro conjI) assumption+
qed

theorem replaceFocusedWordWithFilter_splices_witness:
  "(\<lambda>k. Some \<lparr>fd_kind = FIELD, valueType = Some STRING, parameters = None, desc = None\<rparr>)
       ''browser.name''
     = Some \<lparr>fd_kind = FIELD, valueType = Some STRING, parameters = None, desc = None\<rparr>
   \<and> replaceFocusedWordWithFilter (\<lambda>k f. []) ''before brow after'' 9 ''browser.name''
         (\<lambda>k. Some \<lparr>fd_kind = FIELD, valueType = Some STRING, parameters = None, desc = None\<rparr>)
       = ''before browser.name: after''"
  using replaceFocusedWordWithFilter_splices
    [of "\<lambda>k f. []" "''browser.name''"
        "\<lambda>k. Some \<lparr>fd_kind = FIELD, valueType = Some STRING, parameters = None, desc = None\<rparr>"
        "''before brow after''" 9]
  by simp

section \<open>Claims about the default value synthesizer\<close>

lemma getInitialFilterText_cases:
  "getInitialFilterText gdv key fd =
     getInitialFilterKeyText key fd @ '':'' @
       (if (case fd of None \<Rightarrow> None | Some d \<Rightarrow> valueType d)
            \<in> {Some INTEGER, Some NUMBER, Some DURATION, Some PERCENTAGE}
        then ''>'' else []) @ gdv key fd"
  by (simp add: getInitialFilterText_def Let_def split: option.splits FieldValueType.splits)

lemma getInitialFilterKeyText_plain:
  "fd = None \<or> (\<exists>d. fd = Some d \<and> fd_kind d \<noteq> FUNCTION) \<Longrightarrow> getInitialFilterKeyText key fd = key"
  by (auto simp: getInitialFilterKeyText_def)

text \<open>
  Claim C6. The synthesized filter text is the key text, a colon, and the default
  value, with \<open>>\<close> before the default value exactly when the value type is \<open>INTEGER\<close>,
  \<open>NUMBER\<close>, \<open>DURATION\<close> or \<open>PERCENTAGE\<close>; every other value type, a missing value
  type and a missing field definition give no comparison prefix. The key text is the
  key itself unless the definition is of function kind. A number-typed key with default
  \<open>1\<close> gives \<open>key:>1\<close>, a string-typed key with default \<open>foo\<close> gives \<open>key:foo\<close>.
\<close>

theorem getInitialFilterText_synthesis:
  "(let vt = (case fd of None \<Rightarrow> None | Some d \<Rightarrow> valueType d);
        keyText = getInitialFilterKeyText key fd;
        defaultValue = gdv key fd
    in (vt \<in> {Some INTEGER, Some NUMBER, Some DURATION, Some PERCENTAGE}
          \<longrightarrow> getInitialFilterText gdv key fd = keyText @ '':'' @ ''>'' @ defaultValue)
     \<and> (vt \<notin> {Some INTEGER, Some NUMBER, Some DURATION, Some PERCENTAGE}
          \<longrightarrow> getInitialFilterText gdv key fd = keyText @ '':'' @ defaultValue)
     \<and> ((fd = None \<or> (\<exists>d. fd = Some d \<and> fd_kind d \<noteq> FUNCTION)) \<longrightarrow> keyText = key))
   \<and> getInitialFilterText gdv key None = key @ '':'' @ gdv key None
   \<and> (\<forall>d. valueType d = Some NUMBER \<and> fd_kind d \<noteq> FUNCTION \<and> gdv key (Some d) = ''1''
          \<longrightarrow> getInitialFilterText gdv key (Some d) = key @ '':>1'')
   \<and> (\<forall>d. valueType d = Some STRING \<and> fd_kind d \<noteq> FUNCTION \<and> gdv key (Some d) = ''foo''
          \<longrightarrow> getInitialFilterText gdv key (Some d) = key @ '':foo'')"
proof -
  have a: "(case fd of None \<Rightarrow> None | Some d \<Rightarrow> valueType d)
             \<in> {Some INTEGER, Some NUMBER, Some DURATION, Some PERCENTAGE}
          \<longrightarrow> getInitialFilterText gdv key fd
              = getInitialFilterKeyText key fd @ '':'' @ ''>'' @ gdv key fd"
    by (simp only: getInitialFilterText_cases[of gdv key fd]) simp
  have b: "(case fd of None \<Rightarrow> None | Some d \<Rightarrow> valueType d)
             \<notin> {Some INTEGER, Some NUMBER, Some DURATION, Some PERCENTAGE}
          \<longrightarrow> getInitialFilterText gdv key fd
              = getInitialFilterKeyText key fd @ '':'' @ gdv key fd"
    by (simp only: getInitialFilterText_cases[of gdv key fd]) simp
  have c: "(fd = None \<or> (\<exists>d. fd = Some d \<and> fd_kind d \<noteq> FUNCTION))
          \<longrightarrow> getInitialFilterKeyText key fd = key"
    using getInitialFilterKeyText_plain by blast
  have d: "getInitialFilterText gdv key None = key @ '':'' @ gdv key None"
    by (simp add: getInitialFilterText_cases getInitialFilterKeyText_plain)
  have e: "\<forall>d. valueType d = Some NUMBER \<and> fd_kind d \<noteq> FUNCTION \<and> gdv key (Some d) = ''1''
          \<longrightarrow> getInitialFilterText gdv key (Some d) = key @ '':>1''"
    by (simp add: getInitialFilterText_cases getInitialFilterKeyText_plain)
  have f: "\<forall>d. valueType d = Some STRING \<and> fd_kind d \<noteq> FUNCTION \<and> gdv key (Some d) = ''foo''
          \<longrightarrow> getInitialFilterText gdv key (Some d) = key @ '':foo''"
    by (simp add: getInitialFilterText_cases getInitialFilterKeyText_plain)
  from a b c d e f show ?thesis
    unfolding Let_def by (intro conjI) assumption+
qed

theorem getInitialFilterText_synthesis_witness:
  "getInitialFilterText (\<lambda>k f. ''1'') ''count''
       (Some \<lparr>fd_kind = FIELD, valueType = Some NUMBER, parameters = None, desc = None\<rparr>)
     = ''count:>1''
   \<and> getInitialFilterText (\<lambda>k f. ''foo'') ''level''
       (Some \<lparr>fd_kind = FIELD, valueType = Some STRING, parameters = None, desc = None\<rparr>)
     = ''level:foo''
   \<and> getInitialFilterText (\<lambda>k f. ''x'') ''unknown'' None = ''unknown:x''"
  using getInitialFilterText_synthesis
      [of "Some \<lparr>fd_kind = FIELD, valueType = Some NUMBER, parameters = None, desc = None\<rparr>"
          "''count''" "\<lambda>k f. ''1''"]
    getInitialFilterText_synthesis
      [of "Some \<lparr>fd_kind = FIELD, valueType = Some STRING, parameters = None, desc = None\<rparr>"
          "''level''" "\<lambda>k f. ''foo''"]
    getInitialFilterText_synthesis [of None "''unknown''" "\<lambda>k f. ''x''"]
  by (simp add: Let_def)

section \<open>Claims about the focus router\<close>

lemma includes_str_sublist: "includes_str s t \<longleftrightarrow> sublist t s"
  by (induction s) (simp_all add: sublist_Cons_right)

lemma fold_count:
  "fold (\<lambda>next count. if P next then count + 1 else count) xs (n::nat) = n + length (filter P xs)"
  by (induction xs arbitrary: n) simp_all

lemma indexOf_from_first:
  "i < length xs \<Longrightarrow> xs ! i = x \<Longrightarrow> \<forall>j<i. xs ! j \<noteq> x \<Longrightarrow> indexOf_from xs x k = k + int i"
proof (induction xs arbitrary: i k)
  case Nil
  then show ?case by simp
next
  case (Cons y ys)
  show ?case
  proof (cases i)
    case 0
    with Cons.prems show ?thesis by simp
  next
    case (Suc i')
    from Cons.prems(3) Suc have ne: "y \<noteq> x" by force
    have "\<forall>j<i'. ys ! j \<noteq> x"
    proof (intro allI impI)
      fix j assume "j < i'"
      then have "Suc j < i" using Suc by simp
      with Cons.prems(3) have "(y # ys) ! Suc j \<noteq> x" by blast
      then show "ys ! j \<noteq> x" by simp
    qed
    with Cons.IH[of i' "k + 1"] Cons.prems(1,2) Suc
    have "indexOf_from ys x (k + 1) = k + 1 + int i'" by simp
    with ne Suc show ?thesis by simp
  qed
qed

lemma indexOf_first:
  "i < length xs \<Longrightarrow> \<forall>j<i. xs ! j \<noteq> xs ! i \<Longrightarrow> indexOf xs (xs ! i) = int i"
  unfolding indexOf_def using indexOf_from_first[of i xs "xs ! i" 0] by simp

lemma slice0_nonneg: "slice0 xs (int i) = take i xs"
  by (simp add: slice0_def)

lemma countPrevious_at:
  assumes "focusedKey st = Some (collectionKeys st ! i)" "i < length (collectionKeys st)"
    "\<forall>j<i. collectionKeys st ! j \<noteq> collectionKeys st ! i"
  shows "countPreviousItemsOfType tt st type
         = length (filter (\<lambda>k. includes_str k (tt type)) (take i (collectionKeys st)))"
  using assms
  by (simp add: countPreviousItemsOfType_def Let_def indexOf_first slice0_nonneg fold_count)

lemma token_key_FILTER: "fst it = FILTER \<Longrightarrow> includes_str (token_key tt it) (tt FILTER)"
  by (simp add: includes_str_sublist token_key_def)

text \<open>
  Claim C2. Let the keys of the collection be those of the tokens \<open>items\<close>, in stream
  order, each of the form \<open>type:index\<close>, let the focused key be the key of the item at
  position \<open>i\<close> (its first occurrence), and let the text of the \<open>FILTER\<close> member occur in
  no key of an earlier item of another type. Then \<open>calculateNextFocusForFilter\<close> targets
  the key \<open>FILTER:N\<close> with part \<open>value\<close>, where \<open>N\<close> is the number of \<open>FILTER\<close> items
  before position \<open>i\<close>, whatever the other items around them are; with two earlier
  \<open>FILTER\<close> items the index in the key is \<open>2\<close>.
\<close>

theorem calculateNextFocusForFilter_target:
  assumes "collectionKeys st = map (token_key tt) items"
    and "i < length items"
    and "focusedKey st = Some (token_key tt (items ! i))"
    and "\<forall>j<i. token_key tt (items ! j) \<noteq> token_key tt (items ! i)"
    and "\<forall>it \<in> set (take i items). fst it \<noteq> FILTER \<longrightarrow> \<not> includes_str (token_key tt it) (tt FILTER)"
  shows "calculateNextFocusForFilter tt st
         = \<lparr>itemKey = token_key tt (FILTER, length (filter (\<lambda>it. fst it = FILTER) (take i items))),
            part = Some ''value''\<rparr>
       \<and> (length (filter (\<lambda>it. fst it = FILTER) (take i items)) = 2
            \<longrightarrow> itemKey (calculateNextFocusForFilter tt st) = tt FILTER @ '':2'')"
proof -
  let ?keys = "collectionKeys st"
  have len: "i < length ?keys" using assms(1,2) by simp
  have nth: "?keys ! j = token_key tt (items ! j)" if "j < length items" for j
    using assms(1) that by simp
  have foc: "focusedKey st = Some (?keys ! i)" using assms(3) nth[OF assms(2)] by simp
  have first: "\<forall>j<i. ?keys ! j \<noteq> ?keys ! i"
  proof (intro allI impI)
    fix j assume j: "j < i"
    then have "j < length items" using assms(2) by simp
    with j assms(4) nth nth[OF assms(2)] show "?keys ! j \<noteq> ?keys ! i" by simp
  qed
  have "countPreviousItemsOfType tt st FILTER
        = length (filter (\<lambda>k. includes_str k (tt FILTER)) (take i ?keys))"
    by (rule countPrevious_at[OF foc len first])
  also have "take i ?keys = map (token_key tt) (take i items)"
    by (simp add: assms(1) take_map)
  also have "length (filter (\<lambda>k. includes_str k (tt FILTER)) (map (token_key tt) (take i items)))
             = length (filter (\<lambda>it. includes_str (token_key tt it) (tt FILTER)) (take i items))"
    by (simp add: filter_map comp_def)
  also have "filter (\<lambda>it. includes_str (token_key tt it) (tt FILTER)) (take i items)
             = filter (\<lambda>it. fst it = FILTER) (take i items)"
  proof (rule filter_cong[OF refl])
    fix it assume "it \<in> set (take i items)"
    with assms(5) token_key_FILTER[of it tt]
    show "includes_str (token_key tt it) (tt FILTER) = (fst it = FILTER)" by blast
  qed
  finally have n: "countPreviousItemsOfType tt st FILTER
                   = length (filter (\<lambda>it. fst it = FILTER) (take i items))" .
  have a: "calculateNextFocusForFilter tt st
         = \<lparr>itemKey = token_key tt (FILTER, length (filter (\<lambda>it. fst it = FILTER) (take i items))),
            part = Some ''value''\<rparr>"
    by (simp add: calculateNextFocusForFilter_def Let_def n token_key_def)
  have b: "length (filter (\<lambda>it. fst it = FILTER) (take i items)) = 2
            \<longrightarrow> itemKey (calculateNextFocusForFilter tt st) = tt FILTER @ '':2''"
    by (simp add: a token_key_def digit_char_def)
  from a b show ?thesis by (rule conjI)
qed

theorem calculateNextFocusForFilter_target_witness:
  "calculateNextFocusForFilter
      (\<lambda>t. case t of FILTER \<Rightarrow> ''filter'' | FREE_TEXT \<Rightarrow> ''freeText''
                  | L_PAREN \<Rightarrow> ''lParen'' | R_PAREN \<Rightarrow> ''rParen'' | OtherToken s \<Rightarrow> s)
      \<lparr>collectionKeys = [''freeText:0'', ''filter:0'', ''freeText:1'', ''lParen:0'', ''filter:1'',
                          ''freeText:2'', ''filter:2''],
       focusedKey = Some ''freeText:2''\<rparr>
   = \<lparr>itemKey = ''filter:2'', part = Some ''value''\<rparr>"
  using calculateNextFocusForFilter_target
    [of "\<lparr>collectionKeys = [''freeText:0'', ''filter:0'', ''freeText:1'', ''lParen:0'', ''filter:1'',
                          ''freeText:2'', ''filter:2''],
       focusedKey = Some ''freeText:2''\<rparr>"
      "\<lambda>t. case t of FILTER \<Rightarrow> ''filter'' | FREE_TEXT \<Rightarrow> ''freeText''
                  | L_PAREN \<Rightarrow> ''lParen'' | R_PAREN \<Rightarrow> ''rParen'' | OtherToken s \<Rightarrow> s"
      "[(FREE_TEXT, 0), (FILTER, 0), (FREE_TEXT, 1), (L_PAREN, 0), (FILTER, 1), (FREE_TEXT, 2), (FILTER, 2)]"
      5]
  by (simp add: token_key_def digit_char_def All_less_Suc numeral_eq_Suc)

section \<open>Claims about the handlers of the slot\<close>

lemma parsed_some_iff:
  "parsed_some p parsedText \<longleftrightarrow> (\<exists>ts. parsedText = Some ts \<and> (\<exists>t \<in> set ts. p t))"
  by (cases parsedText) (simp_all add: parsed_some_def list_ex_iff)

text \<open>
  Claim C1. \<open>onInputChange\<close> parses the new value of the input with one double quote
  appended. If the parser gave tokens and one of them is a left or right paren, the new
  value is committed with the focus of \<open>calculateNextFocusForParen\<close>. Else, if one of
  them is a filter whose key text is the word at the cursor, the local text with that
  word replaced by the filter is committed with the focus of
  \<open>calculateNextFocusForFilter\<close>. Else nothing is dispatched and the new value and
  selection become the local state.
\<close>

theorem onInputChange_classifies:
  "(let parsedText = parseSearch ctx (e_value @ [CHR 0x22]);
        word = getWordAtCursorPosition (inputValue l) (selectionIndex l);
        paren = (\<exists>ts. parsedText = Some ts
                   \<and> (\<exists>t \<in> set ts. tok_type t = L_PAREN \<or> tok_type t = R_PAREN));
        filt = (\<exists>ts. parsedText = Some ts
                   \<and> (\<exists>t \<in> set ts. tok_type t = FILTER \<and> key_text t = Some word));
        out = onInputChange ctx props sel0 l e_value e_sel
    in (paren \<longrightarrow>
          out = \<lparr>dispatched =
                   [UPDATE_FREE_TEXT [token props] e_value
                      (Some (calculateNextFocusForParen (tokenText ctx) (item_key props)))],
                 searched = [],
                 local = resetInputValue props sel0\<rparr>)
     \<and> (\<not> paren \<and> filt \<longrightarrow>
          out = \<lparr>dispatched =
                   [UPDATE_FREE_TEXT [token props]
                      (replaceFocusedWordWithFilter (getDefaultFilterValue ctx) (inputValue l)
                         (selectionIndex l) word (getFieldDefinition ctx))
                      (Some (calculateNextFocusForFilter (tokenText ctx) (state props)))],
                 searched = [],
                 local = resetInputValue props sel0\<rparr>)
     \<and> (\<not> paren \<and> \<not> filt \<longrightarrow>
          out = \<lparr>dispatched = [],
                 searched = [],
                 local = \<lparr>inputValue = e_value,
                          selectionIndex = (case e_sel of Some n \<Rightarrow> n | None \<Rightarrow> 0)\<rparr>\<rparr>))"
proof -
  define parsedText where "parsedText = parseSearch ctx (e_value @ [CHR 0x22])"
  define word where "word = getWordAtCursorPosition (inputValue l) (selectionIndex l)"
  define paren where "paren \<longleftrightarrow> (\<exists>ts. parsedText = Some ts
                   \<and> (\<exists>t \<in> set ts. tok_type t = L_PAREN \<or> tok_type t = R_PAREN))"
  define filt where "filt \<longleftrightarrow> (\<exists>ts. parsedText = Some ts
                   \<and> (\<exists>t \<in> set ts. tok_type t = FILTER \<and> key_text t = Some word))"
  have p: "parsed_some (\<lambda>textToken. tok_type textToken = L_PAREN \<or> tok_type textToken = R_PAREN)
             parsedText = paren"
    unfolding parsed_some_iff paren_def ..
  have f: "parsed_some (\<lambda>textToken. tok_type textToken = FILTER \<and> key_text textToken = Some word)
             parsedText = filt"
    unfolding parsed_some_iff filt_def ..
  have out: "onInputChange ctx props sel0 l e_value e_sel =
     (if paren
      then \<lparr>dispatched =
                   [UPDATE_FREE_TEXT [token props] e_value
                      (Some (calculateNextFocusForParen (tokenText ctx) (item_key props)))],
                 searched = [],
                 local = resetInputValue props sel0\<rparr>
      else if filt
      then \<lparr>dispatched =
                   [UPDATE_FREE_TEXT [token props]
                      (replaceFocusedWordWithFilter (getDefaultFilterValue ctx) (inputValue l)
                         (selectionIndex l) word (getFieldDefinition ctx))
                      (Some (calculateNextFocusForFilter (tokenText ctx) (state props)))],
                 searched = [],
                 local = resetInputValue props sel0\<rparr>
      else \<lparr>dispatched = [],
                 searched = [],
                 local = \<lparr>inputValue = e_value,
                          selectionIndex = (case e_sel of Some n \<Rightarrow> n | None \<Rightarrow> 0)\<rparr>\<rparr>)"
    unfolding onInputChange_def Let_def parsedText_def[symmetric] word_def[symmetric] p f ..
  show ?thesis
    unfolding Let_def parsedText_def[symmetric] word_def[symmetric]
      paren_def[symmetric] filt_def[symmetric] out
    by simp
qed

theorem onInputChange_classifies_witness:
  "onInputChange
      \<lparr>parseSearch =
                (\<lambda>s. if s = ''('' @ [CHR 0x22]
                     then Some [\<lparr>tok_type = L_PAREN, key_text = None\<rparr>,
                                \<lparr>tok_type = FREE_TEXT, key_text = None\<rparr>]
                     else if s = ''level:'' @ [CHR 0x22]
                     then Some [\<lparr>tok_type = FILTER, key_text = Some ''level''\<rparr>]
                     else Some [\<lparr>tok_type = FREE_TEXT, key_text = None\<rparr>]),
              getFieldDefinition = (\<lambda>k. None),
              getDefaultFilterValue = (\<lambda>k f. []),
              tokenText = (\<lambda>t. case t of FILTER \<Rightarrow> ''filter'' | FREE_TEXT \<Rightarrow> ''freeText''
                                  | L_PAREN \<Rightarrow> ''lParen'' | R_PAREN \<Rightarrow> ''rParen''
                                  | OtherToken n \<Rightarrow> n),
              query = [],
              replaceTokensWithPadding = (\<lambda>q ts s. s)\<rparr>
      \<lparr>token = \<lparr>tok_text = [], tok_value = []\<rparr>,
              item_key = ''freeText:0'',
              state = \<lparr>collectionKeys = [''freeText:0''], focusedKey = Some ''freeText:0''\<rparr>\<rparr>
      (Some 0) \<lparr>inputValue = [], selectionIndex = 0\<rparr> ''('' (Some 1)
     = \<lparr>dispatched = [UPDATE_FREE_TEXT [\<lparr>tok_text = [], tok_value = []\<rparr>] ''(''
                          (Some \<lparr>itemKey = ''freeText:1'', part = None\<rparr>)],
        searched = [],
        local = \<lparr>inputValue = [], selectionIndex = 0\<rparr>\<rparr>
   \<and> onInputChange
      \<lparr>parseSearch =
                (\<lambda>s. if s = ''('' @ [CHR 0x22]
                     then Some [\<lparr>tok_type = L_PAREN, key_text = None\<rparr>,
                                \<lparr>tok_type = FREE_TEXT, key_text = None\<rparr>]
                     else if s = ''level:'' @ [CHR 0x22]
                     then Some [\<lparr>tok_type = FILTER, key_text = Some ''level''\<rparr>]
                     else Some [\<lparr>tok_type = FREE_TEXT, key_text = None\<rparr>]),
              getFieldDefinition = (\<lambda>k. None),
              getDefaultFilterValue = (\<lambda>k f. []),
              tokenText = (\<lambda>t. case t of FILTER \<Rightarrow> ''filter'' | FREE_TEXT \<Rightarrow> ''freeText''
                                  | L_PAREN \<Rightarrow> ''lParen'' | R_PAREN \<Rightarrow> ''rParen''
                                  | OtherToken n \<Rightarrow> n),
              query = [],
              replaceTokensWithPadding = (\<lambda>q ts s. s)\<rparr>
      \<lparr>token = \<lparr>tok_text = [], tok_value = []\<rparr>,
              item_key = ''freeText:0'',
              state = \<lparr>collectionKeys = [''freeText:0''], focusedKey = Some ''freeText:0''\<rparr>\<rparr>
      (Some 0) \<lparr>inputValue = ''level'', selectionIndex = 5\<rparr> ''level:'' (Some 6)
     = \<lparr>dispatched = [UPDATE_FREE_TEXT [\<lparr>tok_text = [], tok_value = []\<rparr>] ''level:''
                          (Some \<lparr>itemKey = ''filter:0'', part = Some ''value''\<rparr>)],
        searched = [],
        local = \<lparr>inputValue = [], selectionIndex = 0\<rparr>\<rparr>
   \<and> onInputChange
      \<lparr>parseSearch =
                (\<lambda>s. if s = ''('' @ [CHR 0x22]
                     then Some [\<lparr>tok_type = L_PAREN, key_text = None\<rparr>,
                                \<lparr>tok_type = FREE_TEXT, key_text = None\<rparr>]
                     else if s = ''level:'' @ [CHR 0x22]
                     then Some [\<lparr>tok_type = FILTER, key_text = Some ''level''\<rparr>]
                     else Some [\<lparr>tok_type = FREE_TEXT, key_text = None\<rparr>]),
              getFieldDefinition = (\<lambda>k. None),
              getDefaultFilterValue = (\<lambda>k f. []),
              tokenText = (\<lambda>t. case t of FILTER \<Rightarrow> ''filter'' | FREE_TEXT \<Rightarrow> ''freeText''
                                  | L_PAREN \<Rightarrow> ''lParen'' | R_PAREN \<Rightarrow> ''rParen''
                                  | OtherToken n \<Rightarrow> n),
              query = [],
              replaceTokensWithPadding = (\<lambda>q ts s. s)\<rparr>
      \<lparr>token = \<lparr>tok_text = [], tok_value = []\<rparr>,
              item_key = ''freeText:0'',
              state = \<lparr>collectionKeys = [''freeText:0''], focusedKey = Some ''freeText:0''\<rparr>\<rparr>
      (Some 0) \<lparr>inputValue = ''leve'', selectionIndex = 4\<rparr> ''level'' (Some 5)
     = \<lparr>dispatched = [], searched = [],
        local = \<lparr>inputValue = ''level'', selectionIndex = 5\<rparr>\<rparr>"
  using onInputChange_classifies
    [of "\<lparr>parseSearch =
                (\<lambda>s. if s = ''('' @ [CHR 0x22]
                     then Some [\<lparr>tok_type = L_PAREN, key_text = None\<rparr>,
                                \<lparr>tok_type = FREE_TEXT, key_text = None\<rparr>]
                     else if s = ''level:'' @ [CHR 0x22]
                     then Some [\<lparr>tok_type = FILTER, key_text = Some ''level''\<rparr>]
                     else Some [\<lparr>tok_type = FREE_TEXT, key_text = None\<rparr>]),
              getFieldDefinition = (\<lambda>k. None),
              getDefaultFilterValue = (\<lambda>k f. []),
              tokenText = (\<lambda>t. case t of FILTER \<Rightarrow> ''filter'' | FREE_TEXT \<Rightarrow> ''freeText''
                                  | L_PAREN \<Rightarrow> ''lParen'' | R_PAREN \<Rightarrow> ''rParen''
                                  | OtherToken n \<Rightarrow> n),
              query = [],
              replaceTokensWithPadding = (\<lambda>q ts s. s)\<rparr>"
        "''(''" "\<lparr>inputValue = [], selectionIndex = 0\<rparr>"
        "\<lparr>token = \<lparr>tok_text = [], tok_value = []\<rparr>,
              item_key = ''freeText:0'',
              state = \<lparr>collectionKeys = [''freeText:0''], focusedKey = Some ''freeText:0''\<rparr>\<rparr>" "Some 0" "Some 1"]
    onInputChange_classifies
    [of "\<lparr>parseSearch =
                (\<lambda>s. if s = ''('' @ [CHR 0x22]
                     then Some [\<lparr>tok_type = L_PAREN, key_text = None\<rparr>,
                                \<lparr>tok_type = FREE_TEXT, key_text = None\<rparr>]
                     else if s = ''level:'' @ [CHR 0x22]
                     then Some [\<lparr>tok_type = FILTER, key_text = Some ''level''\<rparr>]
                     else Some [\<lparr>tok_type = FREE_TEXT, key_text = None\<rparr>]),
              getFieldDefinition = (\<lambda>k. None),
              getDefaultFilterValue = (\<lambda>k f. []),
              tokenText = (\<lambda>t. case t of FILTER \<Rightarrow> ''filter'' | FREE_TEXT \<Rightarrow> ''freeText''
                                  | L_PAREN \<Rightarrow> ''lParen'' | R_PAREN \<Rightarrow> ''rParen''
                                  | OtherToken n \<Rightarrow> n),
              query = [],
              replaceTokensWithPadding = (\<lambda>q ts s. s)\<rparr>"
        "''level:''" "\<lparr>inputValue = ''level'', selectionIndex = 5\<rparr>"
        "\<lparr>token = \<lparr>tok_text = [], tok_value = []\<rparr>,
              item_key = ''freeText:0'',
              state = \<lparr>collectionKeys = [''freeText:0''], focusedKey = Some ''freeText:0''\<rparr>\<rparr>" "Some 0" "Some 6"]
    onInputChange_classifies
    [of "\<lparr>parseSearch =
                (\<lambda>s. if s = ''('' @ [CHR 0x22]
                     then Some [\<lparr>tok_type = L_PAREN, key_text = None\<rparr>,
                                \<lparr>tok_type = FREE_TEXT, key_text = None\<rparr>]
                     else if s = ''level:'' @ [CHR 0x22]
                     then Some [\<lparr>tok_type = FILTER, key_text = Some ''level''\<rparr>]
                     else Some [\<lparr>tok_type = FREE_TEXT, key_text = None\<rparr>]),
              getFieldDefinition = (\<lambda>k. None),
              getDefaultFilterValue = (\<lambda>k f. []),
              tokenText = (\<lambda>t. case t of FILTER \<Rightarrow> ''filter'' | FREE_TEXT \<Rightarrow> ''freeText''
                                  | L_PAREN \<Rightarrow> ''lParen'' | R_PAREN \<Rightarrow> ''rParen''
                                  | OtherToken n \<Rightarrow> n),
              query = [],
              replaceTokensWithPadding = (\<lambda>q ts s. s)\<rparr>"
        "''level''" "\<lparr>inputValue = ''leve'', selectionIndex = 4\<rparr>"
        "\<lparr>token = \<lparr>tok_text = [], tok_value = []\<rparr>,
              item_key = ''freeText:0'',
              state = \<lparr>collectionKeys = [''freeText:0''], focusedKey = Some ''freeText:0''\<rparr>\<rparr>" "Some 0" "Some 5"]
  by (simp add: Let_def getWordAtCursorPosition_def SP_def calculateNextFocusForParen_def
        calculateNextFocusForFilter_def countPreviousItemsOfType_def indexOf_def slice0_def
        parseInt10_def is_ws_def is_digit_def digits_val_def show_int_def digit_char_def
        replaceFocusedWordWithFilter_def getInitialFilterText_def getInitialFilterKeyText_def
        trim_def resetInputValue_def)

text \<open>
  Claim C7. When the parser gives no result for the new value with the quote appended,
  \<open>onInputChange\<close> dispatches nothing and the local text and selection index become the
  new value and selection of the input.
\<close>

theorem onInputChange_parse_failure:
  assumes "parseSearch ctx (e_value @ [CHR 0x22]) = None"
  shows "onInputChange ctx props sel0 l e_value e_sel
         = \<lparr>dispatched = [],
            searched = [],
            local = \<lparr>inputValue = e_value,
                     selectionIndex = (case e_sel of Some n \<Rightarrow> n | None \<Rightarrow> 0)\<rparr>\<rparr>"
  using assms by (simp add: onInputChange_def Let_def parsed_some_def)

theorem onInputChange_parse_failure_witness:
  "parseSearch \<lparr>parseSearch = (\<lambda>s. None), getFieldDefinition = (\<lambda>k. None),
                 getDefaultFilterValue = (\<lambda>k f. []), tokenText = (\<lambda>t. ''t''),
                 query = [], replaceTokensWithPadding = (\<lambda>q ts s. s)\<rparr> (''ab'' @ [CHR 0x22]) = None
   \<and> onInputChange \<lparr>parseSearch = (\<lambda>s. None), getFieldDefinition = (\<lambda>k. None),
                 getDefaultFilterValue = (\<lambda>k f. []), tokenText = (\<lambda>t. ''t''),
                 query = [], replaceTokensWithPadding = (\<lambda>q ts s. s)\<rparr>
        \<lparr>token = \<lparr>tok_text = ''a'', tok_value = ''a''\<rparr>, item_key = ''freeText:0'',
         state = \<lparr>collectionKeys = [''freeText:0''], focusedKey = Some ''freeText:0''\<rparr>\<rparr>
        (Some 1) \<lparr>inputValue = ''a'', selectionIndex = 1\<rparr> ''ab'' (Some 2)
     = \<lparr>dispatched = [], searched = [], local = \<lparr>inputValue = ''ab'', selectionIndex = 2\<rparr>\<rparr>"
  using onInputChange_parse_failure
    [of "\<lparr>parseSearch = (\<lambda>s. None), getFieldDefinition = (\<lambda>k. None),
                 getDefaultFilterValue = (\<lambda>k f. []), tokenText = (\<lambda>t. ''t''),
                 query = [], replaceTokensWithPadding = (\<lambda>q ts s. s)\<rparr>"
        "''ab''"
        "\<lparr>token = \<lparr>tok_text = ''a'', tok_value = ''a''\<rparr>, item_key = ''freeText:0'',
         state = \<lparr>collectionKeys = [''freeText:0''], focusedKey = Some ''freeText:0''\<rparr>\<rparr>"
        "Some 1" "\<lparr>inputValue = ''a'', selectionIndex = 1\<rparr>" "Some 2"]
  by simp




text \<open>
  Claim C4. \<open>onPaste\<close> commits the trimmed clipboard text as a replacement of the whole
  token and never calls the parser, and pasting \<open>level:error\<close> followed by a newline
  commits \<open>level:error\<close>. Only the first newline is removed, though: of a payload with
  two newlines the second one is committed.
\<close>

theorem onPaste_keeps_second_newline:
  "onPaste
      \<lparr>token = \<lparr>tok_text = [], tok_value = []\<rparr>, item_key = ''freeText:0'',
       state = \<lparr>collectionKeys = [''freeText:0''], focusedKey = Some ''freeText:0''\<rparr>\<rparr>
      None (''a'' @ [NL] @ ''b'' @ [NL] @ ''c'')
     = \<lparr>dispatched = [REPLACE_TOKENS_WITH_TEXT [\<lparr>tok_text = [], tok_value = []\<rparr>]
                          (''ab'' @ [NL] @ ''c'')],
        searched = [],
        local = \<lparr>inputValue = [], selectionIndex = 0\<rparr>\<rparr>
   \<and> onPaste
      \<lparr>token = \<lparr>tok_text = [], tok_value = []\<rparr>, item_key = ''freeText:0'',
       state = \<lparr>collectionKeys = [''freeText:0''], focusedKey = Some ''freeText:0''\<rparr>\<rparr>
      None (''level:error'' @ [NL])
     = \<lparr>dispatched = [REPLACE_TOKENS_WITH_TEXT [\<lparr>tok_text = [], tok_value = []\<rparr>]
                          ''level:error''],
        searched = [],
        local = \<lparr>inputValue = [], selectionIndex = 0\<rparr>\<rparr>"
  by (simp add: onPaste_def NL_def trim_def is_ws_def resetInputValue_def)

section \<open>Claims about the candidate ranker\<close>

lemma createItems_present:
  "\<forall>c \<in> set children. lookup_key keys c \<noteq> None \<Longrightarrow>
   createItems gek keys gfd children
     = Inr (map (\<lambda>c. createItem gek (the (lookup_key keys c)) (gfd c)) children)"
  by (induction children) auto

lemma createItems_missing:
  "c \<in> set children \<Longrightarrow> lookup_key keys c = None \<Longrightarrow>
   createItems gek keys gfd children = Inl TypeError"
  by (induction children) (auto split: option.splits sum.splits)

lemma createSections_present:
  "\<forall>s \<in> set secs. \<forall>c \<in> set (sec_children s). lookup_key keys c \<noteq> None \<Longrightarrow>
   createSections gek keys gfd secs
     = Inr (map (\<lambda>s. Section \<lparr>ks_key = sec_value s, ks_value = sec_value s,
                                 ks_title = sec_label s,
                                 ks_options = map (\<lambda>c. createItem gek (the (lookup_key keys c)) (gfd c))
                                                  (sec_children s)\<rparr>) secs)"
  by (induction secs) (simp_all add: createSection_def createItems_present)

lemma createSections_missing:
  "s \<in> set secs \<Longrightarrow> c \<in> set (sec_children s) \<Longrightarrow> lookup_key keys c = None \<Longrightarrow>
   createSections gek keys gfd secs = Inl TypeError"
proof (induction secs)
  case Nil
  then show ?case by simp
next
  case (Cons x secs)
  show ?case
  proof (cases "createSection gek x keys gfd")
    case (Inl e)
    then show ?thesis by (cases e) simp
  next
    case (Inr y)
    have "s \<noteq> x"
    proof
      assume "s = x"
      with Cons.prems have "createItems gek keys gfd (sec_children x) = Inl TypeError"
        by (simp add: createItems_missing)
      with Inr show False by (simp add: createSection_def)
    qed
    with Cons have "createSections gek keys gfd secs = Inl TypeError" by simp
    with Inr show ?thesis by simp
  qed
qed

text \<open>
  What the ranker does for an empty filter word, whatever the search engine is. With
  no section configured the result is the item of every tag of the catalog, in catalog
  order. With sections configured, the result is the sections, in order, each with the
  items of its children in order, when \<open>keys[key]\<close> is defined for every child; when it
  is \<open>undefined\<close> for some child of some section, a \<open>TypeError\<close> is thrown.
\<close>

lemma useSortItems_no_sections:
  "useSortItems gek filterKeys [] gfd search []
     = Inr (map (\<lambda>kt. Key (createItem gek (OwnTag (snd kt)) (gfd (tag_key (snd kt))))) filterKeys)"
  by (simp add: useSortItems_def flatItems_def comp_def)

lemma useSortItems_sections_present:
  assumes "secs \<noteq> []"
    and "\<forall>s \<in> set secs. \<forall>c \<in> set (sec_children s). lookup_key filterKeys c \<noteq> None"
  shows "useSortItems gek filterKeys secs gfd search []
         = Inr (map (\<lambda>s. Section \<lparr>ks_key = sec_value s, ks_value = sec_value s,
                                 ks_title = sec_label s,
                                 ks_options = map (\<lambda>c. createItem gek (the (lookup_key filterKeys c)) (gfd c))
                                                  (sec_children s)\<rparr>) secs)"
proof -
  have "useSortItems gek filterKeys secs gfd search [] = createSections gek filterKeys gfd secs"
    using assms(1) by (simp add: useSortItems_def)
  then show ?thesis
    using createSections_present[OF assms(2)] by simp
qed

lemma useSortItems_sections_missing:
  assumes "s \<in> set secs" and "c \<in> set (sec_children s)" and "lookup_key filterKeys c = None"
  shows "useSortItems gek filterKeys secs gfd search [] = Inl TypeError"
proof -
  from assms(1) have "secs \<noteq> []" by auto
  then have "useSortItems gek filterKeys secs gfd search [] = createSections gek filterKeys gfd secs"
    by (simp add: useSortItems_def)
  then show ?thesis
    using createSections_missing[OF assms] by simp
qed

text \<open>
  Claim C9. For an empty filter word the ranker is to return the configured sections
  as section groupings whenever sections are configured. The code does so for a
  section whose children are all keys of the catalog. For a section that names a child
  the catalog does not hold, and so for any section with a child over an empty catalog,
  it reads \<open>tag.key\<close> of \<open>undefined\<close> and throws, where the other lookups of the same
  catalog in the source guard the missing key with \<open>?.\<close>; a child that is the name of
  a member of \<open>Object.prototype\<close> gives an item with an undefined value instead.
\<close>

theorem useSortItems_missing_child_throws:
  "useSortItems (\<lambda>k. case k of Some s \<Rightarrow> s | None \<Rightarrow> ''undefined'')
      [(''level'', \<lparr>tag_key = ''level'', tag_kind = Some FIELD\<rparr>)]
      [\<lparr>sec_value = ''all'', sec_label = ''All'', sec_children = [''level'', ''release'']\<rparr>]
      (\<lambda>k. None) None []
     = Inl TypeError
   \<and> useSortItems (\<lambda>k. case k of Some s \<Rightarrow> s | None \<Rightarrow> ''undefined'')
      []
      [\<lparr>sec_value = ''all'', sec_label = ''All'', sec_children = [''level'']\<rparr>]
      (\<lambda>k. None) None []
     = Inl TypeError
   \<and> useSortItems (\<lambda>k. case k of Some s \<Rightarrow> s | None \<Rightarrow> ''undefined'')
      [(''level'', \<lparr>tag_key = ''level'', tag_kind = Some FIELD\<rparr>)]
      [\<lparr>sec_value = ''all'', sec_label = ''All'', sec_children = [''level'']\<rparr>]
      (\<lambda>k. None) None []
     = Inr [Section \<lparr>ks_key = ''all'', ks_value = ''all'', ks_title = ''All'',
              ks_options =
                [\<lparr>ki_key = ''level'', ki_label = Some ''level'', ki_description = [],
                  ki_value = Some ''level'', ki_textValue = Some ''level'', ki_hideCheck = True,
                  ki_showDetailsInOverlay = True,
                  ki_details = OwnTag \<lparr>tag_key = ''level'', tag_kind = Some FIELD\<rparr>\<rparr>]\<rparr>]
   \<and> useSortItems (\<lambda>k. case k of Some s \<Rightarrow> s | None \<Rightarrow> ''undefined'')
      [(''level'', \<lparr>tag_key = ''level'', tag_kind = Some FIELD\<rparr>)]
      [\<lparr>sec_value = ''all'', sec_label = ''All'', sec_children = [''constructor'']\<rparr>]
      (\<lambda>k. None) None []
     = Inr [Section \<lparr>ks_key = ''all'', ks_value = ''all'', ks_title = ''All'',
              ks_options =
                [\<lparr>ki_key = ''undefined'', ki_label = None, ki_description = [],
                  ki_value = None, ki_textValue = None, ki_hideCheck = True,
                  ki_showDetailsInOverlay = True,
                  ki_details = PrototypeMember ''constructor''\<rparr>]\<rparr>]"
  by (simp add: useSortItems_def createSection_def lookup_key_def object_prototype_names_def
        createItem_def getKeyLabel_def)

end
